theory Spec2Isabelle
  imports Complex_Main
begin

section \<open>Data model\<close>

text \<open>
  A metadata record is the dictionary built in \<open>VectorDB.add\<close>
  (\<open>src/utils/database.py\<close>): the keys \<open>id\<close>, \<open>topic\<close>, \<open>content\<close>, \<open>source\<close> and
  \<open>date\<close>. The key \<open>id\<close> is the field \<open>item_id\<close> here (\<open>id\<close> is the identity function
  of HOL). A search result is a copy of such a dictionary with the extra key \<open>score\<close>.
\<close>

record item =
  item_id :: int
  topic :: string
  content :: string
  source :: string
  date :: string

record scored_item = item +
  score :: real

text \<open>
  Embedding vectors are arrays of \<open>float32\<close>. Every finite \<open>float32\<close> is a rational number;
  the model keeps the values as reals and does not round the results of arithmetic.
\<close>

type_synonym vec = "real list"

datatype error = AssertionError

subsection \<open>The flat L2 index of the faiss library\<close>

text \<open>
  \<open>faiss.IndexFlatL2(d)\<close> stores the added vectors in insertion order. The Python wrapper
  of \<open>add\<close> asserts that the rows have \<open>d\<close> columns. \<open>search(x, k)\<close> asserts that the query
  has \<open>d\<close> columns and that \<open>k > 0\<close>, and returns two arrays of \<open>k\<close> entries: the squared
  Euclidean distances of the nearest stored vectors, ascending, and their positions;
  when fewer than \<open>k\<close> vectors are stored the remaining entries hold the largest
  \<open>float32\<close> as distance and \<open>-1\<close> as position. The two arrays have the same shape, so
  the model returns one list of (distance, position) pairs. Equal distances are kept
  in insertion order (the order of ties inside the library is not relied upon).
\<close>

record IndexFlatL2 =
  dim :: nat
  xb :: "vec list"

definition IndexFlatL2_new :: "nat \<Rightarrow> IndexFlatL2" where
  "IndexFlatL2_new n = \<lparr>dim = n, xb = []\<rparr>"

definition ntotal :: "IndexFlatL2 \<Rightarrow> nat" where
  "ntotal ix = length (xb ix)"

definition index_add :: "IndexFlatL2 \<Rightarrow> vec \<Rightarrow> error + IndexFlatL2" where
  "index_add ix v =
     (if length v = dim ix then Inr (ix\<lparr>xb := xb ix @ [v]\<rparr>) else Inl AssertionError)"

definition fvec_L2sqr :: "vec \<Rightarrow> vec \<Rightarrow> real" where
  "fvec_L2sqr x y = sum_list (map (\<lambda>(a, b). (a - b) * (a - b)) (zip x y))"

definition FLT_MAX :: real where
  "FLT_MAX = 340282346638528859811704183484516925440"

definition all_distances :: "IndexFlatL2 \<Rightarrow> vec \<Rightarrow> (real \<times> int) list" where
  "all_distances ix q =
     map (\<lambda>(i, v). (fvec_L2sqr q v, int i)) (enumerate 0 (xb ix))"

definition index_search :: "IndexFlatL2 \<Rightarrow> vec \<Rightarrow> int \<Rightarrow> error + (real \<times> int) list" where
  "index_search ix q k =
     (if length q \<noteq> dim ix \<or> k \<le> 0 then Inl AssertionError
      else let nearest = take (nat k) (sort_key fst (all_distances ix q))
           in Inr (nearest @ replicate (nat k - length nearest) (FLT_MAX, - 1)))"

subsection \<open>The store and its files\<close>

text \<open>
  A \<open>VectorDB\<close> object holds the profile name, the index and the metadata list. The
  directory \<open>data/<profile>\<close> holds the two files \<open>faiss_index.bin\<close> and \<open>metadata.json\<close>,
  each present or absent. Failures of the file system itself are not modelled.
\<close>

record VectorDB =
  profile :: string
  index :: IndexFlatL2
  metadata :: "item list"

record data_dir =
  index_file :: "IndexFlatL2 option"
  metadata_file :: "item list option"

type_synonym filesystem = "string \<Rightarrow> data_dir"

definition VectorDB_init :: "filesystem \<Rightarrow> string \<Rightarrow> VectorDB" where
  "VectorDB_init fs p =
     (case index_file (fs p) of
        Some ix \<Rightarrow>
          (case metadata_file (fs p) of
             Some md \<Rightarrow> \<lparr>profile = p, index = ix, metadata = md\<rparr>
           | None \<Rightarrow> \<lparr>profile = p, index = IndexFlatL2_new 64, metadata = []\<rparr>)
      | None \<Rightarrow> \<lparr>profile = p, index = IndexFlatL2_new 64, metadata = []\<rparr>)"

definition create_or_load_vector_db :: "filesystem \<Rightarrow> string \<Rightarrow> VectorDB" where
  "create_or_load_vector_db fs p = VectorDB_init fs p"

definition save :: "filesystem \<Rightarrow> VectorDB \<Rightarrow> filesystem" where
  "save fs db =
     fs(profile db := \<lparr>index_file = Some (index db), metadata_file = Some (metadata db)\<rparr>)"

text \<open>
  \<open>add\<close>: the embedding is \<open>generate_embeddings(content)\<close> unless the caller passes one;
  \<open>embedder\<close> is that function and \<open>now\<close> the formatted current time. The vector goes into
  the index first, so a vector of the wrong dimension raises before anything changes.
\<close>

definition add ::
  "(string \<Rightarrow> vec) \<Rightarrow> string \<Rightarrow> filesystem \<Rightarrow> VectorDB \<Rightarrow> string \<Rightarrow> string \<Rightarrow> string \<Rightarrow>
     vec option \<Rightarrow> error + (int \<times> VectorDB \<times> filesystem)" where
  "add embedder now fs db tp ct src embeddings =
     (let emb = (case embeddings of None \<Rightarrow> embedder ct | Some e \<Rightarrow> e)
      in case index_add (index db) emb of
           Inl e \<Rightarrow> Inl e
         | Inr ix \<Rightarrow>
             let idx = int (length (metadata db));
                 db' = db\<lparr>index := ix,
                          metadata := metadata db @
                            [\<lparr>item_id = idx, topic = tp, content = ct, source = src,
                              date = now\<rparr>]\<rparr>
             in Inr (idx, db', save fs db'))"

text \<open>
  The loop of \<open>delete_by_topic\<close> over \<open>enumerate(keep_items)\<close>: each kept record is
  embedded again and added to the new index, and a copy with \<open>id = i\<close> is appended to
  the new metadata.
\<close>

fun rebuild ::
  "(string \<Rightarrow> vec) \<Rightarrow> IndexFlatL2 \<Rightarrow> item list \<Rightarrow> nat \<Rightarrow> item list \<Rightarrow>
     error + (IndexFlatL2 \<times> item list)" where
  "rebuild embedder new_index new_metadata i [] = Inr (new_index, new_metadata)"
| "rebuild embedder new_index new_metadata i (it # rest) =
     (case index_add new_index (embedder (content it)) of
        Inl e \<Rightarrow> Inl e
      | Inr ix \<Rightarrow>
          rebuild embedder ix (new_metadata @ [it\<lparr>item_id := int i\<rparr>]) (Suc i) rest)"

definition delete_by_topic ::
  "(string \<Rightarrow> vec) \<Rightarrow> filesystem \<Rightarrow> VectorDB \<Rightarrow> string \<Rightarrow>
     error + (bool \<times> VectorDB \<times> filesystem)" where
  "delete_by_topic embedder fs db tp =
     (let keep_items = filter (\<lambda>it. topic it \<noteq> tp) (metadata db)
      in if length keep_items = length (metadata db) then Inr (False, db, fs)
         else case rebuild embedder (IndexFlatL2_new 64) [] 0 keep_items of
                Inl e \<Rightarrow> Inl e
              | Inr (new_index, new_metadata) \<Rightarrow>
                  let db' = db\<lparr>index := new_index, metadata := new_metadata\<rparr>
                  in Inr (True, db', save fs db'))"

subsection \<open>The embedding function\<close>

text \<open>
  \<open>generate_embeddings\<close> (\<open>src/utils/summarizer.py\<close>) hashes the text with MD5, reduces
  the digest modulo \<open>10 ** 8\<close>, seeds the global generator of numpy with it and draws 64
  normal variates, converted to \<open>float32\<close>. The digest (\<open>md5\<close>, as a number), the seeding
  (\<open>seed\<close>, which replaces the generator's state by one computed from its argument), the
  drawing (\<open>randn\<close>, which reads and advances the state) and the conversion (\<open>float32\<close>)
  belong to the Python library and numpy and are parameters. The state of the global
  generator is threaded through: the function takes it and returns the new one.
\<close>

definition generate_embeddings ::
  "(string \<Rightarrow> nat) \<Rightarrow> (nat \<Rightarrow> 'g) \<Rightarrow> (nat \<Rightarrow> 'g \<Rightarrow> 'x list \<times> 'g) \<Rightarrow> ('x \<Rightarrow> real) \<Rightarrow>
     string \<Rightarrow> 'g \<Rightarrow> vec \<times> 'g" where
  "generate_embeddings md5 seed randn float32 text g =
     (let hash_val = md5 text mod 10 ^ 8;
          g1 = seed hash_val;
          (xs, g2) = randn 64 g1
      in (map float32 xs, g2))"

subsection \<open>Reading the store\<close>

text \<open>
  The score of \<open>search\<close>: \<open>max_distance\<close> is the largest of all distances the index
  returned for the query (1 when it returned none), and the similarity of a distance
  is \<open>1 - distance / max_distance\<close>, or 0 when \<open>max_distance\<close> is not positive.
\<close>

definition max_distance_of :: "(real \<times> int) list \<Rightarrow> real" where
  "max_distance_of hits = (case map fst hits of [] \<Rightarrow> 1 | x # xs \<Rightarrow> fold max xs x)"

definition similarity_of :: "(real \<times> int) list \<Rightarrow> real \<Rightarrow> real" where
  "similarity_of hits dst =
     (let max_distance = max_distance_of hits
      in if max_distance > 0 then 1 - dst / max_distance else 0)"

definition with_score :: "item \<Rightarrow> real \<Rightarrow> scored_item" where
  "with_score it s = item.extend it (scored_item.fields s)"

text \<open>
  The loop of \<open>search\<close> over the entries the index returned: an entry whose position is
  not a position of the metadata list is skipped, any other yields a copy of the
  record at that position with its score.
\<close>

fun format_results :: "item list \<Rightarrow> (real \<times> int) list \<Rightarrow> (real \<times> int) list \<Rightarrow> scored_item list" where
  "format_results md hits [] = []"
| "format_results md hits ((dst, idx) # rest) =
     (if idx \<ge> 0 \<and> idx < int (length md)
      then with_score (md ! nat idx) (similarity_of hits dst) # format_results md hits rest
      else format_results md hits rest)"

definition search :: "(string \<Rightarrow> vec) \<Rightarrow> VectorDB \<Rightarrow> string \<Rightarrow> int \<Rightarrow> error + scored_item list" where
  "search embedder db query top_k =
     (if length (metadata db) = 0 then Inr []
      else let query_vector = embedder query;
               k = min top_k (int (length (metadata db)))
           in case index_search (index db) query_vector k of
                Inl e \<Rightarrow> Inl e
              | Inr hits \<Rightarrow> Inr (format_results (metadata db) hits hits))"

text \<open>
  \<open>get_all_topics\<close> returns \<open>list(set(...))\<close>: the distinct topics in an order Python does
  not fix, so the model returns their set.
\<close>

definition get_all_topics :: "VectorDB \<Rightarrow> string set" where
  "get_all_topics db = set (map topic (metadata db))"

definition get_by_topic :: "VectorDB \<Rightarrow> string \<Rightarrow> item list" where
  "get_by_topic db tp = filter (\<lambda>it. topic it = tp) (metadata db)"

subsection \<open>Notions used to state the properties\<close>

definition consistent :: "VectorDB \<Rightarrow> bool" where
  "consistent db \<longleftrightarrow>
     length (metadata db) = ntotal (index db) \<and>
     map item_id (metadata db) = map int [0..<length (metadata db)]"

text \<open>The entries of an index result that \<open>search\<close> does not skip.\<close>

definition valid_hits :: "item list \<Rightarrow> (real \<times> int) list \<Rightarrow> (real \<times> int) list" where
  "valid_hits md hits = filter (\<lambda>(dst, idx). 0 \<le> idx \<and> idx < int (length md)) hits"

text \<open>
  The distance of a returned record: the squared Euclidean distance between the
  embedded query and the stored vector at the position the record's \<open>id\<close> names.
\<close>

definition result_distance :: "(string \<Rightarrow> vec) \<Rightarrow> VectorDB \<Rightarrow> string \<Rightarrow> scored_item \<Rightarrow> real" where
  "result_distance embedder db query r =
     fvec_L2sqr (embedder query) (xb (index db) ! nat (item_id r))"

subsection \<open>The records as objects\<close>

text \<open>
  In Python the metadata list holds references to dictionary objects, and \<open>search\<close>
  writes the key \<open>score\<close> into a dictionary. To say which dictionary is written, the
  read operations are modelled a second time over a heap of dictionary objects: an
  address is a position of the heap, \<open>dict.copy()\<close> allocates a new object with the
  same contents, and \<open>result["score"] = ...\<close> updates the object at the address
  \<open>result\<close>. A stored dictionary has no key \<open>score\<close> (\<open>score_key = None\<close>). Each operation
  returns its result together with the heap and the object's fields after the call.
\<close>

type_synonym addr = nat

record dict_obj = item +
  score_key :: "real option"

type_synonym heap = "dict_obj list"

record store_obj =
  obj_index :: IndexFlatL2
  obj_metadata :: "addr list"

definition dict_copy :: "heap \<Rightarrow> addr \<Rightarrow> addr \<times> heap" where
  "dict_copy h a = (length h, h @ [h ! a])"

definition dict_set_score :: "heap \<Rightarrow> addr \<Rightarrow> real \<Rightarrow> heap" where
  "dict_set_score h a s = h[a := (h ! a)\<lparr>score_key := Some s\<rparr>]"

fun format_results_obj ::
  "heap \<Rightarrow> addr list \<Rightarrow> (real \<times> int) list \<Rightarrow> (real \<times> int) list \<Rightarrow> addr list \<times> heap" where
  "format_results_obj h md hits [] = ([], h)"
| "format_results_obj h md hits ((dst, idx) # rest) =
     (if idx \<ge> 0 \<and> idx < int (length md)
      then let similarity = similarity_of hits dst;
               (result, h1) = dict_copy h (md ! nat idx);
               h2 = dict_set_score h1 result similarity;
               (results, h3) = format_results_obj h2 md hits rest
           in (result # results, h3)
      else format_results_obj h md hits rest)"

definition search_obj ::
  "(string \<Rightarrow> vec) \<Rightarrow> heap \<Rightarrow> store_obj \<Rightarrow> string \<Rightarrow> int \<Rightarrow>
     error + (addr list \<times> heap \<times> store_obj)" where
  "search_obj embedder h self query top_k =
     (if length (obj_metadata self) = 0 then Inr ([], h, self)
      else let query_vector = embedder query;
               k = min top_k (int (length (obj_metadata self)))
           in case index_search (obj_index self) query_vector k of
                Inl e \<Rightarrow> Inl e
              | Inr hits \<Rightarrow>
                  let (results, h') = format_results_obj h (obj_metadata self) hits hits
                  in Inr (results, h', self))"

definition get_all_topics_obj :: "heap \<Rightarrow> store_obj \<Rightarrow> string set \<times> heap \<times> store_obj" where
  "get_all_topics_obj h self = (set (map (\<lambda>a. topic (h ! a)) (obj_metadata self)), h, self)"

definition get_by_topic_obj :: "heap \<Rightarrow> store_obj \<Rightarrow> string \<Rightarrow> addr list \<times> heap \<times> store_obj" where
  "get_by_topic_obj h self tp = (filter (\<lambda>a. topic (h ! a) = tp) (obj_metadata self), h, self)"

text \<open>
  Every reference of the metadata list points into the heap, and the store of values
  that a heap and an object stand for.
\<close>

definition refs_ok :: "heap \<Rightarrow> store_obj \<Rightarrow> bool" where
  "refs_ok h self \<longleftrightarrow> list_all (\<lambda>a. a < length h) (obj_metadata self)"

definition store_of :: "string \<Rightarrow> heap \<Rightarrow> store_obj \<Rightarrow> VectorDB" where
  "store_of p h self =
     \<lparr>profile = p, index = obj_index self,
      metadata = map (\<lambda>a. item.truncate (h ! a)) (obj_metadata self)\<rparr>"

subsection \<open>Sample data\<close>

text \<open>
  A stand-in for the embedding function with 64 components, the first one the length
  of the text; a file system with no files; and small stores built from them.
\<close>

definition sample_embedder :: "string \<Rightarrow> vec" where
  "sample_embedder s = real (length s) # replicate 63 0"

definition no_files :: filesystem where
  "no_files = (\<lambda>p. \<lparr>index_file = None, metadata_file = None\<rparr>)"

definition rec_A0 :: item where
  "rec_A0 = \<lparr>item_id = 0, topic = ''A'', content = ''a'', source = ''manual'', date = ''2025-01-01 10:00:00''\<rparr>"

definition rec_A1 :: item where
  "rec_A1 = \<lparr>item_id = 1, topic = ''A'', content = ''aaa'', source = ''manual'', date = ''2025-01-01 10:00:01''\<rparr>"

definition rec_B2 :: item where
  "rec_B2 = \<lparr>item_id = 2, topic = ''B'', content = ''bbbbbb'', source = ''manual'', date = ''2025-01-01 10:00:02''\<rparr>"

definition store_AAB :: VectorDB where
  "store_AAB =
     \<lparr>profile = ''default'',
      index = \<lparr>dim = 64, xb = [sample_embedder ''a'', sample_embedder ''aaa'', sample_embedder ''bbbbbb'']\<rparr>,
      metadata = [rec_A0, rec_A1, rec_B2]\<rparr>"

text \<open>
  Files whose two counts disagree, as a crash between the two writes of \<open>save\<close> in the
  second \<open>add\<close> leaves them: an index with two vectors beside one record.
\<close>

definition index_AA :: IndexFlatL2 where
  "index_AA = \<lparr>dim = 64, xb = [sample_embedder ''a'', sample_embedder ''aaa'']\<rparr>"

definition torn_files :: filesystem where
  "torn_files = (\<lambda>p. \<lparr>index_file = Some index_AA, metadata_file = Some [rec_A0]\<rparr>)"

text \<open>The sample store after deleting topic \<open>A\<close>.\<close>

definition store_B :: VectorDB where
  "store_B =
     \<lparr>profile = ''default'',
      index = \<lparr>dim = 64, xb = [sample_embedder ''bbbbbb'']\<rparr>,
      metadata = [rec_B2\<lparr>item_id := 0\<rparr>]\<rparr>"

text \<open>
  The result of searching the sample store for \<open>aa\<close>; a stand-in for the generator's
  drawing; and the sample store as objects on a heap.
\<close>

definition sample_results :: "scored_item list" where
  "sample_results = [with_score rec_A0 (15 / 16), with_score rec_A1 (15 / 16), with_score rec_B2 0]"

definition sample_randn :: "nat \<Rightarrow> nat \<Rightarrow> real list \<times> nat" where
  "sample_randn n g = (replicate n (real g), Suc g)"

definition as_dict :: "item \<Rightarrow> dict_obj" where
  "as_dict it = item.extend it (dict_obj.fields None)"

definition sample_heap :: heap where
  "sample_heap = [as_dict rec_A0, as_dict rec_A1, as_dict rec_B2]"

definition sample_obj :: store_obj where
  "sample_obj = \<lparr>obj_index = index store_AAB, obj_metadata = [0, 1, 2]\<rparr>"

text \<open>
  Two more stores whose counts disagree. In the first the index holds one vector
  beside two records: deleting topic \<open>B\<close> from a store of the two records rebuilds this
  index, and \<open>save\<close> writes the index file before the metadata file. In the second
  the index holds three vectors beside two records, as a crash between the two
  writes of \<open>save\<close> in the third \<open>add\<close> leaves the files.
\<close>

definition rec_B1 :: item where
  "rec_B1 = \<lparr>item_id = 1, topic = ''B'', content = ''bbbbbb'', source = ''manual'', date = ''2025-01-01 10:00:01''\<rparr>"

definition store_short :: VectorDB where
  "store_short =
     \<lparr>profile = ''default'',
      index = \<lparr>dim = 64, xb = [sample_embedder ''a'']\<rparr>,
      metadata = [rec_A0, rec_B1]\<rparr>"

definition store_long :: VectorDB where
  "store_long =
     \<lparr>profile = ''default'',
      index = \<lparr>dim = 64, xb = [sample_embedder ''a'', sample_embedder ''aaa'', sample_embedder ''bbbbbb'']\<rparr>,
      metadata = [rec_A0, rec_A1]\<rparr>"

section \<open>Writing the store\<close>

subsection \<open>Auxiliary facts\<close>

lemma index_add_Inr:
  "index_add ix v = Inr ix' \<Longrightarrow> ix' = ix\<lparr>xb := xb ix @ [v]\<rparr> \<and> length v = dim ix"
  by (auto simp: index_add_def split: if_splits)

lemma rebuild_Inr:
  "rebuild embedder ix acc i xs = Inr (ix', md') \<Longrightarrow>
     dim ix' = dim ix \<and>
     xb ix' = xb ix @ map (\<lambda>it. embedder (content it)) xs \<and>
     md' = acc @ map (\<lambda>(j, it). it\<lparr>item_id := int j\<rparr>) (enumerate i xs)"
proof (induction xs arbitrary: ix acc i)
  case Nil
  then show ?case by simp
next
  case (Cons it rest)
  from Cons.prems obtain ix1 where
    a: "index_add ix (embedder (content it)) = Inr ix1" and
    r: "rebuild embedder ix1 (acc @ [it\<lparr>item_id := int i\<rparr>]) (Suc i) rest = Inr (ix', md')"
    by (auto split: sum.splits)
  from index_add_Inr [OF a] have ix1: "dim ix1 = dim ix" "xb ix1 = xb ix @ [embedder (content it)]"
    by simp_all
  from Cons.IH [OF r] ix1 show ?case by simp
qed

lemma rebuild_total:
  "\<forall>it\<in>set xs. length (embedder (content it)) = dim ix \<Longrightarrow>
     \<exists>ix' md'. rebuild embedder ix acc i xs = Inr (ix', md')"
proof (induction xs arbitrary: ix acc i)
  case Nil
  then show ?case by simp
next
  case (Cons it rest)
  have a: "index_add ix (embedder (content it)) = Inr (ix\<lparr>xb := xb ix @ [embedder (content it)]\<rparr>)"
    using Cons.prems by (simp add: index_add_def)
  have "\<forall>x\<in>set rest. length (embedder (content x)) = dim (ix\<lparr>xb := xb ix @ [embedder (content it)]\<rparr>)"
    using Cons.prems by simp
  from Cons.IH [OF this] a show ?case by simp
qed

lemma map_item_id_enumerate:
  "map item_id (map (\<lambda>(j, it). it\<lparr>item_id := int j\<rparr>) (enumerate i xs)) = map int [i..<i + length xs]"
  by (induction xs arbitrary: i) (simp_all add: upt_rec)

lemma filter_length_eq_iff:
  "length (filter P xs) = length xs \<longleftrightarrow> (\<forall>x\<in>set xs. P x)"
  by (metis filter_id_conv length_filter_less nat_neq_iff)

lemma map_item_id_nth:
  "map item_id md = map int [0..<length md] \<longleftrightarrow> (\<forall>i<length md. item_id (md ! i) = int i)"
proof
  assume h: "map item_id md = map int [0..<length md]"
  show "\<forall>i<length md. item_id (md ! i) = int i"
  proof (intro allI impI)
    fix i assume i: "i < length md"
    have "item_id (md ! i) = map item_id md ! i" using i by simp
    also have "\<dots> = map int [0..<length md] ! i" using h by simp
    also have "\<dots> = int i" using i by simp
    finally show "item_id (md ! i) = int i" .
  qed
next
  assume "\<forall>i<length md. item_id (md ! i) = int i"
  then show "map item_id md = map int [0..<length md]"
    by (intro nth_equalityI) simp_all
qed

text \<open>
  The invariant in the words of the specification: as many records as vectors, and
  the record at position \<open>i\<close> has \<open>id = i\<close>.
\<close>

lemma consistent_nth:
  "consistent db \<longleftrightarrow>
     length (metadata db) = ntotal (index db) \<and>
     (\<forall>i<length (metadata db). item_id (metadata db ! i) = int i)"
  unfolding consistent_def map_item_id_nth ..

lemma consistent_new: "consistent \<lparr>profile = p, index = IndexFlatL2_new 64, metadata = []\<rparr>"
  by (simp add: consistent_def ntotal_def IndexFlatL2_new_def)

lemma add_Inr:
  assumes "add embedder now fs db tp ct src e = Inr (i, db', fs')"
  shows "i = int (length (metadata db))"
    and "metadata db' = metadata db @ [\<lparr>item_id = i, topic = tp, content = ct, source = src, date = now\<rparr>]"
    and "xb (index db') = xb (index db) @ [case e of None \<Rightarrow> embedder ct | Some v \<Rightarrow> v]"
    and "dim (index db') = dim (index db)"
    and "profile db' = profile db"
    and "fs' = save fs db'"
  using assms
  by (auto simp: add_def Let_def split: sum.splits dest!: index_add_Inr)

lemma add_total:
  assumes "length (case e of None \<Rightarrow> embedder ct | Some v \<Rightarrow> v) = dim (index db)"
  shows "\<exists>db'. add embedder now fs db tp ct src e = Inr (int (length (metadata db)), db', save fs db')"
  using assms by (simp add: add_def index_add_def Let_def)

lemma add_consistent:
  assumes "consistent db" "add embedder now fs db tp ct src e = Inr (i, db', fs')"
  shows "consistent db'"
  using assms(1) add_Inr(1-3) [OF assms(2)]
  by (simp add: consistent_def ntotal_def)

lemma delete_True:
  assumes "delete_by_topic embedder fs db tp = Inr (True, db', fs')"
  shows "metadata db' = map (\<lambda>(j, it). it\<lparr>item_id := int j\<rparr>) (enumerate 0 (filter (\<lambda>it. topic it \<noteq> tp) (metadata db)))"
    and "xb (index db') = map (\<lambda>it. embedder (content it)) (filter (\<lambda>it. topic it \<noteq> tp) (metadata db))"
    and "dim (index db') = 64"
    and "profile db' = profile db"
    and "fs' = save fs db'"
  using assms
  by (auto simp: delete_by_topic_def Let_def IndexFlatL2_new_def split: if_splits sum.splits dest!: rebuild_Inr)

lemma delete_True_consistent:
  assumes "delete_by_topic embedder fs db tp = Inr (True, db', fs')"
  shows "consistent db'"
  using delete_True(1,2) [OF assms] map_item_id_enumerate [of 0]
  by (simp add: consistent_def ntotal_def)

lemma delete_False:
  assumes "delete_by_topic embedder fs db tp = Inr (False, db', fs')"
  shows "db' = db \<and> fs' = fs \<and> (\<forall>it\<in>set (metadata db). topic it \<noteq> tp)"
  using assms
  by (auto simp: delete_by_topic_def Let_def filter_length_eq_iff split: if_splits sum.splits)

lemma delete_no_match:
  assumes "\<forall>it\<in>set (metadata db). topic it \<noteq> tp"
  shows "delete_by_topic embedder fs db tp = Inr (False, db, fs)"
  using assms by (simp add: delete_by_topic_def Let_def filter_length_eq_iff)

lemma load_saved: "VectorDB_init (save fs db) (profile db) = db"
  by (simp add: VectorDB_init_def save_def)

lemma length_sample_embedder [simp]: "length (sample_embedder s) = 64"
  by (simp add: sample_embedder_def)

lemma consistent_store_AAB: "consistent store_AAB"
  by (simp add: consistent_def store_AAB_def ntotal_def rec_A0_def rec_A1_def rec_B2_def upt_rec)

lemma sample_delete_A:
  "delete_by_topic sample_embedder no_files store_AAB ''A'' = Inr (True, store_B, save no_files store_B)"
  by (simp add: delete_by_topic_def store_AAB_def store_B_def rec_A0_def rec_A1_def rec_B2_def
      index_add_def IndexFlatL2_new_def Let_def)

subsection \<open>The invariant\<close>

text \<open>
  Loading checks nothing: with an index file holding two vectors and a metadata file
  holding one record, the constructor returns a store with one record and two
  vectors, which is not consistent.
\<close>

theorem load_torn_files_not_consistent:
  "length (metadata (VectorDB_init torn_files ''default'')) = 1 \<and>
   ntotal (index (VectorDB_init torn_files ''default'')) = 2 \<and>
   \<not> consistent (VectorDB_init torn_files ''default'')"
  by (simp add: VectorDB_init_def torn_files_def consistent_def ntotal_def index_AA_def)

text \<open>
  C1, as amended. The invariant (as many records as vectors in the index, and the
  record at position \<open>i\<close> has \<open>id = i\<close>) holds after every \<open>add\<close> that returns, when it
  held before; after every \<open>delete_by_topic\<close> that returns true; after one that returns
  false, when it held before; after loading the files that \<open>save\<close> wrote from a
  consistent store; and after loading when one of the two files is missing. The
  constructor itself compares nothing, so loading other files promises nothing.
\<close>

theorem invariant_preserved:
  "(consistent db \<and> add embedder now fs db tp ct src e = Inr (i, db1, fs1) \<longrightarrow> consistent db1) \<and>
   (delete_by_topic embedder fs db tp = Inr (True, db2, fs2) \<longrightarrow> consistent db2) \<and>
   (consistent db \<and> delete_by_topic embedder fs db tp = Inr (False, db2, fs2) \<longrightarrow> consistent db2) \<and>
   (consistent db \<longrightarrow> consistent (VectorDB_init (save fs db) (profile db))) \<and>
   (index_file (fs p) = None \<or> metadata_file (fs p) = None \<longrightarrow> consistent (VectorDB_init fs p))"
proof (intro conjI impI)
  assume "consistent db \<and> add embedder now fs db tp ct src e = Inr (i, db1, fs1)"
  then show "consistent db1" using add_consistent by blast
next
  assume "delete_by_topic embedder fs db tp = Inr (True, db2, fs2)"
  then show "consistent db2" by (rule delete_True_consistent)
next
  assume "consistent db \<and> delete_by_topic embedder fs db tp = Inr (False, db2, fs2)"
  then show "consistent db2" using delete_False by blast
next
  assume "consistent db"
  then show "consistent (VectorDB_init (save fs db) (profile db))" by (simp add: load_saved)
next
  assume "index_file (fs p) = None \<or> metadata_file (fs p) = None"
  then show "consistent (VectorDB_init fs p)"
    by (auto simp: VectorDB_init_def consistent_new split: option.splits)
qed

text \<open>
  On the sample store of three records: adding a fourth record returns \<open>id = 3\<close> and a
  consistent store, deleting topic \<open>A\<close> leaves a consistent store, and so does loading
  what was saved and loading from a directory with no files.
\<close>

theorem invariant_preserved_witness:
  "consistent store_AAB \<and>
   (\<exists>db1. add sample_embedder ''2025-01-02 09:00:00'' no_files store_AAB ''C'' ''cc'' ''manual'' None
            = Inr (3, db1, save no_files db1) \<and> consistent db1) \<and>
   consistent store_B \<and>
   consistent (VectorDB_init (save no_files store_AAB) (profile store_AAB)) \<and>
   consistent (VectorDB_init no_files ''default'')"
proof -
  have c: "consistent store_AAB" by (rule consistent_store_AAB)
  have "length (case None of None \<Rightarrow> sample_embedder ''cc'' | Some v \<Rightarrow> v) = dim (index store_AAB)"
    by (simp add: store_AAB_def)
  from add_total [where e = None and embedder = sample_embedder and ct = "''cc''" and db = store_AAB
      and now = "''2025-01-02 09:00:00''" and fs = no_files and tp = "''C''" and src = "''manual''", OF this]
  obtain db1 where a: "add sample_embedder ''2025-01-02 09:00:00'' no_files store_AAB ''C'' ''cc'' ''manual'' None
            = Inr (3, db1, save no_files db1)"
    by (auto simp: store_AAB_def)
  have n: "index_file (no_files ''default'') = None \<or> metadata_file (no_files ''default'') = None"
    by (simp add: no_files_def)
  note t = invariant_preserved [of store_AAB sample_embedder "''2025-01-02 09:00:00''" no_files "''C''" "''cc''"
      "''manual''" None 3 db1 "save no_files db1" _ _ "''default''"]
  note u = invariant_preserved [of store_AAB sample_embedder _ no_files "''A''" _ _ _ _ _ _ store_B "save no_files store_B"]
  from t c a n u sample_delete_A show ?thesis by blast
qed

subsection \<open>Loading\<close>

text \<open>
  With both files present and counts that disagree (two vectors, one record), the
  loaded store holds the index and the record of the files: the pair is used as it
  is, and the store is not empty.
\<close>

theorem create_or_load_uses_torn_files:
  "index_file (torn_files ''default'') = Some index_AA \<and>
   metadata_file (torn_files ''default'') = Some [rec_A0] \<and>
   length [rec_A0] \<noteq> ntotal index_AA \<and>
   index (create_or_load_vector_db torn_files ''default'') = index_AA \<and>
   metadata (create_or_load_vector_db torn_files ''default'') = [rec_A0] \<and>
   metadata (create_or_load_vector_db torn_files ''default'') \<noteq> []"
  by (simp add: create_or_load_vector_db_def VectorDB_init_def torn_files_def ntotal_def index_AA_def)

text \<open>
  C2, as amended. \<open>create_or_load_vector_db\<close> returns the persisted index and metadata
  whenever both files exist, whatever their counts, and a new index of dimension 64
  with no metadata when either file is missing.
\<close>

theorem create_or_load_both_or_new:
  "(index_file (fs p) = Some ix \<and> metadata_file (fs p) = Some md \<longrightarrow>
      create_or_load_vector_db fs p = \<lparr>profile = p, index = ix, metadata = md\<rparr>) \<and>
   (index_file (fs p) = None \<or> metadata_file (fs p) = None \<longrightarrow>
      create_or_load_vector_db fs p = \<lparr>profile = p, index = IndexFlatL2_new 64, metadata = []\<rparr>)"
  by (auto simp: create_or_load_vector_db_def VectorDB_init_def split: option.splits)

theorem create_or_load_both_or_new_witness:
  "create_or_load_vector_db torn_files ''default'' =
     \<lparr>profile = ''default'', index = index_AA, metadata = [rec_A0]\<rparr> \<and>
   create_or_load_vector_db no_files ''default'' =
     \<lparr>profile = ''default'', index = IndexFlatL2_new 64, metadata = []\<rparr>"
proof -
  have a: "index_file (torn_files ''default'') = Some index_AA \<and>
           metadata_file (torn_files ''default'') = Some [rec_A0]"
    by (simp add: torn_files_def)
  have b: "index_file (no_files ''default'') = None \<or> metadata_file (no_files ''default'') = None"
    by (simp add: no_files_def)
  from create_or_load_both_or_new [of torn_files "''default''" index_AA "[rec_A0]"] a
    create_or_load_both_or_new [of no_files "''default''"] b
  show ?thesis by blast
qed

subsection \<open>Deleting a topic\<close>

text \<open>
  C3. When some stored record has the topic, and the embedding of every other
  record's content has 64 components, \<open>delete_by_topic\<close> returns true and saves the
  new store; its metadata are the records of the other topics in their order, the
  \<open>i\<close>-th with \<open>id = i\<close> and otherwise unchanged; its index holds the embeddings of
  their contents in the same order, so its count is the number of records kept.
\<close>

theorem delete_by_topic_rebuilds:
  assumes "\<exists>it\<in>set (metadata db). topic it = tp"
    and "\<forall>it\<in>set (metadata db). topic it \<noteq> tp \<longrightarrow> length (embedder (content it)) = 64"
  shows "\<exists>db'. delete_by_topic embedder fs db tp = Inr (True, db', save fs db') \<and>
           metadata db' = map (\<lambda>(i, it). it\<lparr>item_id := int i\<rparr>)
                            (enumerate 0 (filter (\<lambda>it. topic it \<noteq> tp) (metadata db))) \<and>
           xb (index db') = map (\<lambda>it. embedder (content it))
                              (filter (\<lambda>it. topic it \<noteq> tp) (metadata db)) \<and>
           ntotal (index db') = length (filter (\<lambda>it. topic it \<noteq> tp) (metadata db)) \<and>
           map item_id (metadata db') =
             map int [0..<length (filter (\<lambda>it. topic it \<noteq> tp) (metadata db))] \<and>
           map (\<lambda>it. it\<lparr>item_id := 0\<rparr>) (metadata db') =
             map (\<lambda>it. it\<lparr>item_id := 0\<rparr>) (filter (\<lambda>it. topic it \<noteq> tp) (metadata db))"
proof -
  let ?keep = "filter (\<lambda>it. topic it \<noteq> tp) (metadata db)"
  have ne: "length ?keep \<noteq> length (metadata db)"
    using assms(1) by (simp add: filter_length_eq_iff)
  have "\<forall>it\<in>set ?keep. length (embedder (content it)) = dim (IndexFlatL2_new 64)"
    using assms(2) by (simp add: IndexFlatL2_new_def)
  from rebuild_total [OF this]
  obtain ix' md' where r: "rebuild embedder (IndexFlatL2_new 64) [] 0 ?keep = Inr (ix', md')"
    by blast
  let ?db' = "db\<lparr>index := ix', metadata := md'\<rparr>"
  have d: "delete_by_topic embedder fs db tp = Inr (True, ?db', save fs ?db')"
    using ne r by (simp add: delete_by_topic_def Let_def)
  have m: "metadata ?db' = map (\<lambda>(i, it). it\<lparr>item_id := int i\<rparr>) (enumerate 0 ?keep)"
    and x: "xb (index ?db') = map (\<lambda>it. embedder (content it)) ?keep"
    using delete_True(1,2) [OF d] by simp_all
  have n: "ntotal (index ?db') = length ?keep"
    using x by (simp add: ntotal_def)
  have i: "map item_id (metadata ?db') = map int [0..<length ?keep]"
    using m map_item_id_enumerate [of 0 ?keep] by simp
  have o: "map (\<lambda>it. it\<lparr>item_id := 0\<rparr>) (metadata ?db') = map (\<lambda>it. it\<lparr>item_id := 0\<rparr>) ?keep"
    unfolding m by (simp add: list_eq_iff_nth_eq nth_enumerate_eq)
  from d m x n i o show ?thesis by blast
qed

text \<open>
  The example of the specification: from records with topics \<open>A\<close>, \<open>A\<close>, \<open>B\<close>, deleting
  \<open>A\<close> returns true and leaves the \<open>B\<close> record with \<open>id = 0\<close> and one vector.
\<close>

theorem delete_by_topic_rebuilds_witness:
  "\<exists>db'. delete_by_topic sample_embedder no_files store_AAB ''A'' = Inr (True, db', save no_files db') \<and>
         metadata db' = [rec_B2\<lparr>item_id := 0\<rparr>] \<and> ntotal (index db') = 1"
proof -
  have h1: "\<exists>it\<in>set (metadata store_AAB). topic it = ''A''"
    by (simp add: store_AAB_def rec_A0_def)
  have h2: "\<forall>it\<in>set (metadata store_AAB). topic it \<noteq> ''A'' \<longrightarrow> length (sample_embedder (content it)) = 64"
    by simp
  have k: "filter (\<lambda>it. topic it \<noteq> ''A'') (metadata store_AAB) = [rec_B2]"
    by (simp add: store_AAB_def rec_A0_def rec_A1_def rec_B2_def)
  from delete_by_topic_rebuilds [OF h1 h2, of no_files] show ?thesis
    unfolding k by auto
qed

text \<open>
  C4. \<open>delete_by_topic\<close> returns false exactly when no stored record has the topic,
  and then the store (index and metadata) and the files are the ones it was given.
\<close>

theorem delete_by_topic_false_iff_no_match:
  "((\<exists>db' fs'. delete_by_topic embedder fs db tp = Inr (False, db', fs')) \<longleftrightarrow>
      (\<forall>it\<in>set (metadata db). topic it \<noteq> tp)) \<and>
   ((\<forall>it\<in>set (metadata db). topic it \<noteq> tp) \<longrightarrow>
      delete_by_topic embedder fs db tp = Inr (False, db, fs))"
  using delete_False [of embedder fs db tp] delete_no_match [of db tp embedder fs]
  by blast

theorem delete_by_topic_false_iff_no_match_witness:
  "delete_by_topic sample_embedder no_files store_AAB ''C'' = Inr (False, store_AAB, no_files) \<and>
   \<not> (\<exists>db' fs'. delete_by_topic sample_embedder no_files store_AAB ''A'' = Inr (False, db', fs'))"
proof -
  have h: "\<forall>it\<in>set (metadata store_AAB). topic it \<noteq> ''C''"
    by (simp add: store_AAB_def rec_A0_def rec_A1_def rec_B2_def)
  have g: "\<not> (\<forall>it\<in>set (metadata store_AAB). topic it \<noteq> ''A'')"
    by (simp add: store_AAB_def rec_A0_def)
  from delete_by_topic_false_iff_no_match [of sample_embedder no_files store_AAB "''C''"] h
    delete_by_topic_false_iff_no_match [of sample_embedder no_files store_AAB "''A''"] g
  show ?thesis by blast
qed

section \<open>Reading the store\<close>

subsection \<open>Auxiliary facts about the index and the loop\<close>

lemma with_score_simps [simp]:
  "item.truncate (with_score it s) = it"
  "score (with_score it s) = s"
  "item_id (with_score it s) = item_id it"
  "topic (with_score it s) = topic it"
  "content (with_score it s) = content it"
  by (simp_all add: with_score_def item.truncate_def item.extend_def scored_item.fields_def)

lemma format_results_map:
  "format_results md hits hs =
     map (\<lambda>(dst, idx). with_score (md ! nat idx) (similarity_of hits dst)) (valid_hits md hs)"
proof (induction hs)
  case Nil
  show ?case by (simp add: valid_hits_def)
next
  case (Cons h hs)
  obtain dst idx where h: "h = (dst, idx)" by (cases h)
  show ?case
  proof (cases "idx \<ge> 0 \<and> idx < int (length md)")
    case True
    then show ?thesis using Cons.IH unfolding h by (simp add: valid_hits_def)
  next
    case False
    then show ?thesis using Cons.IH unfolding h by (simp add: valid_hits_def)
  qed
qed

lemma length_all_distances [simp]: "length (all_distances ix q) = ntotal ix"
  by (simp add: all_distances_def ntotal_def)

lemma all_distances_nth:
  "i < ntotal ix \<Longrightarrow> all_distances ix q ! i = (fvec_L2sqr q (xb ix ! i), int i)"
  by (simp add: all_distances_def ntotal_def nth_enumerate_eq)

lemma all_distances_set:
  assumes "(dst, idx) \<in> set (all_distances ix q)"
  shows "0 \<le> idx \<and> nat idx < ntotal ix \<and> dst = fvec_L2sqr q (xb ix ! nat idx)"
proof -
  from assms obtain i where i: "i < ntotal ix" and e: "all_distances ix q ! i = (dst, idx)"
    by (auto simp: in_set_conv_nth)
  with all_distances_nth [OF i, of q] show ?thesis by simp
qed

lemma fvec_L2sqr_nonneg: "0 \<le> fvec_L2sqr x y"
  unfolding fvec_L2sqr_def by (rule sum_list_nonneg) auto

lemma index_search_Inr:
  assumes "index_search ix q k = Inr hits"
  shows "0 < k" and "length q = dim ix"
    and "hits = take (nat k) (sort_key fst (all_distances ix q)) @
                replicate (nat k - min (nat k) (ntotal ix)) (FLT_MAX, - 1)"
  using assms by (auto simp: index_search_def Let_def min_def split: if_splits)

lemma index_search_total:
  assumes "0 < k" "length q = dim ix"
  shows "index_search ix q k = Inr (take (nat k) (sort_key fst (all_distances ix q)) @
                replicate (nat k - min (nat k) (ntotal ix)) (FLT_MAX, - 1))"
  using assms by (auto simp: index_search_def Let_def min_def)

lemma set_take_sort_subset:
  "set (take n (sort_key f xs)) \<subseteq> set xs"
  using set_take_subset [of n "sort_key f xs"] by simp

lemma in_take_sortD: "x \<in> set (take n (sort_key f xs)) \<Longrightarrow> x \<in> set xs"
  using set_take_sort_subset [of n f xs] by blast

lemma sorted_take_sort: "sorted (map fst (take n (sort_key fst xs)))"
  by (simp add: take_map sorted_wrt_take flip: take_map)

lemma valid_hits_padding [simp]:
  "valid_hits md (xs @ replicate n (d, - 1)) = valid_hits md xs"
  by (simp add: valid_hits_def)

lemma valid_hits_subset: "set (valid_hits md hs) \<subseteq> set hs"
  by (auto simp: valid_hits_def)

lemma sorted_valid_hits: "sorted (map fst hs) \<Longrightarrow> sorted (map fst (valid_hits md hs))"
  unfolding valid_hits_def by (rule sorted_filter)

lemma max_distance_of_Max:
  "hits \<noteq> [] \<Longrightarrow> max_distance_of hits = Max (fst ` set hits)"
  by (cases hits) (simp_all add: max_distance_of_def Max.set_eq_fold [symmetric])

lemma max_distance_of_ge:
  "(dst, idx) \<in> set hits \<Longrightarrow> dst \<le> max_distance_of hits"
proof -
  assume a: "(dst, idx) \<in> set hits"
  then have "hits \<noteq> []" by auto
  then have "max_distance_of hits = Max (fst ` set hits)" by (rule max_distance_of_Max)
  moreover have "dst \<le> Max (fst ` set hits)" using a by (intro Max_ge) force+
  ultimately show ?thesis by simp
qed

lemma similarity_of_bounds:
  assumes "0 \<le> dst" "dst \<le> max_distance_of hits"
  shows "0 \<le> similarity_of hits dst \<and> similarity_of hits dst \<le> 1"
  using assms by (auto simp: similarity_of_def Let_def divide_le_eq_1)

lemma similarity_of_antimono:
  assumes "d1 \<le> d2"
  shows "similarity_of hits d2 \<le> similarity_of hits d1"
  using assms by (auto simp: similarity_of_def Let_def divide_right_mono)

lemma similarity_of_max:
  assumes "0 < max_distance_of hits"
  shows "similarity_of hits (max_distance_of hits) = 0"
  using assms by (simp add: similarity_of_def)

lemma search_empty: "metadata db = [] \<Longrightarrow> search embedder db q top_k = Inr []"
  by (simp add: search_def)

lemma search_Inr:
  assumes "search embedder db q top_k = Inr rs" "metadata db \<noteq> []"
  shows "\<exists>hits. index_search (index db) (embedder q) (min top_k (int (length (metadata db)))) = Inr hits \<and>
           rs = format_results (metadata db) hits hits"
  using assms by (auto simp: search_def Let_def split: sum.splits)

lemma nonneg_filter_hits:
  "filter (\<lambda>(dst, idx). 0 \<le> idx) (take n (sort_key fst (all_distances ix q))) =
     take n (sort_key fst (all_distances ix q))"
proof (rule filter_True)
  show "\<forall>x\<in>set (take n (sort_key fst (all_distances ix q))). case x of (dst, idx) \<Rightarrow> 0 \<le> idx"
    using set_take_sort_subset [of n fst "all_distances ix q"] all_distances_set [of _ _ ix q]
    by auto
qed

lemma sorted_rev_scores:
  assumes "sorted (map fst ys)"
  shows "sorted (rev (map (\<lambda>(dst, idx). similarity_of hits dst) ys))"
proof -
  have "sorted_wrt (\<lambda>x y. fst x \<le> fst y) ys"
    using assms by (simp add: sorted_wrt_map)
  then have "sorted_wrt (\<lambda>x y. (case y of (dst, idx) \<Rightarrow> similarity_of hits dst)
                              \<le> (case x of (dst, idx) \<Rightarrow> similarity_of hits dst)) ys"
    by (rule sorted_wrt_mono_rel [rotated]) (auto intro: similarity_of_antimono)
  then show ?thesis
    by (simp add: sorted_wrt_rev sorted_wrt_map)
qed

lemma result_distance_with_score:
  "result_distance embedder db q (with_score it s) =
     fvec_L2sqr (embedder q) (xb (index db) ! nat (item_id it))"
  by (simp add: result_distance_def)

lemma search_shape:
  assumes "search embedder db q top_k = Inr rs" and "metadata db \<noteq> []"
  shows "\<exists>hits. index_search (index db) (embedder q) (min top_k (int (length (metadata db)))) = Inr hits \<and>
      int (length hits) = min top_k (int (length (metadata db))) \<and>
      length (filter (\<lambda>(dst, idx). 0 \<le> idx) hits) = min (length hits) (ntotal (index db)) \<and>
      rs = map (\<lambda>(dst, idx). with_score (metadata db ! nat idx) (similarity_of hits dst))
             (valid_hits (metadata db) hits) \<and>
      sorted (map fst (valid_hits (metadata db) hits)) \<and>
      (\<forall>(dst, idx)\<in>set (valid_hits (metadata db) hits).
          nat idx < ntotal (index db) \<and> dst = fvec_L2sqr (embedder q) (xb (index db) ! nat idx)) \<and>
      sorted (rev (map score rs))"
proof -
  let ?md = "metadata db" and ?ix = "index db" and ?qv = "embedder q"
  let ?k = "min top_k (int (length ?md))"
  from search_Inr [OF assms] obtain hits where
    s: "index_search ?ix ?qv ?k = Inr hits" and rs: "rs = format_results ?md hits hits"
    by blast
  let ?near = "take (nat ?k) (sort_key fst (all_distances ?ix ?qv))"
  let ?pad = "replicate (nat ?k - min (nat ?k) (ntotal ?ix)) (FLT_MAX, - 1 :: int)"
  from index_search_Inr [OF s] have k: "0 < ?k" and h: "hits = ?near @ ?pad"
    by simp_all
  have len: "length hits = nat ?k"
    unfolding h by (simp add: min_def)
  have len': "int (length hits) = ?k" using len k by simp
  have near_len: "length ?near = min (nat ?k) (ntotal ?ix)" by simp
  have "filter (\<lambda>(dst, idx). 0 \<le> idx) hits = ?near"
    unfolding h by (simp add: nonneg_filter_hits)
  then have cnt: "length (filter (\<lambda>(dst, idx). 0 \<le> idx) hits) = min (length hits) (ntotal ?ix)"
    using near_len len by simp
  have v: "valid_hits ?md hits = valid_hits ?md ?near"
    unfolding h by simp
  have rs': "rs = map (\<lambda>(dst, idx). with_score (?md ! nat idx) (similarity_of hits dst))
             (valid_hits ?md hits)"
    unfolding rs by (rule format_results_map)
  have srt: "sorted (map fst (valid_hits ?md hits))"
    unfolding v by (rule sorted_valid_hits) (rule sorted_take_sort)
  have dist: "\<forall>(dst, idx)\<in>set (valid_hits ?md hits).
          nat idx < ntotal ?ix \<and> dst = fvec_L2sqr ?qv (xb ?ix ! nat idx)"
  proof (clarify)
    fix dst idx assume "(dst, idx) \<in> set (valid_hits ?md hits)"
    then have "(dst, idx) \<in> set ?near" unfolding v using valid_hits_subset by blast
    then have "(dst, idx) \<in> set (all_distances ?ix ?qv)"
      by (rule in_take_sortD)
    from all_distances_set [OF this]
    show "nat idx < ntotal ?ix \<and> dst = fvec_L2sqr ?qv (xb ?ix ! nat idx)" by simp
  qed
  have "map score rs = map (\<lambda>(dst, idx). similarity_of hits dst) (valid_hits ?md hits)"
    unfolding rs' by (simp add: case_prod_beta)
  then have sc: "sorted (rev (map score rs))"
    using sorted_rev_scores [OF srt] by simp
  from s len' cnt rs' srt dist sc show ?thesis by blast
qed

text \<open>
  On a consistent store the index returns exactly \<open>min(top_k, count)\<close> entries, none
  is skipped, and the distance the index reports for an entry is the distance of the
  record that \<open>search\<close> returns for it.
\<close>

lemma search_consistent:
  assumes c: "consistent db" and s: "search embedder db q top_k = Inr rs" and ne: "metadata db \<noteq> []"
  shows "\<exists>hits. hits \<noteq> [] \<and> int (length hits) = min top_k (int (length (metadata db))) \<and>
           map score rs = map (\<lambda>(dst, idx). similarity_of hits dst) hits \<and>
           map (result_distance embedder db q) rs = map fst hits \<and>
           map item.truncate rs = map (\<lambda>(dst, idx). metadata db ! nat idx) hits \<and>
           (\<forall>d\<in>fst ` set hits. 0 \<le> d) \<and> sorted (map fst hits)"
proof -
  let ?md = "metadata db" and ?ix = "index db" and ?qv = "embedder q"
  let ?k = "min top_k (int (length ?md))"
  from c have n: "length ?md = ntotal ?ix" and ids: "\<forall>i<length ?md. item_id (?md ! i) = int i"
    by (simp_all add: consistent_nth)
  from search_Inr [OF s ne] obtain hits where
    isr: "index_search ?ix ?qv ?k = Inr hits" and rs: "rs = format_results ?md hits hits"
    by blast
  let ?near = "take (nat ?k) (sort_key fst (all_distances ?ix ?qv))"
  from index_search_Inr [OF isr] have k: "0 < ?k"
    and h0: "hits = ?near @ replicate (nat ?k - min (nat ?k) (ntotal ?ix)) (FLT_MAX, - 1)"
    by simp_all
  have "nat ?k \<le> ntotal ?ix" using n by simp
  then have h: "hits = ?near" using h0 by (simp add: min_def)
  have len: "length hits = nat ?k" unfolding h using \<open>nat ?k \<le> ntotal ?ix\<close> by simp
  have "0 < length hits" unfolding len using k by (simp only: zero_less_nat_eq)
  then have hne: "hits \<noteq> []" by auto
  have mem: "\<And>dst idx. (dst, idx) \<in> set hits \<Longrightarrow>
      0 \<le> idx \<and> nat idx < ntotal ?ix \<and> dst = fvec_L2sqr ?qv (xb ?ix ! nat idx)"
  proof -
    fix dst idx assume "(dst, idx) \<in> set hits"
    then have "(dst, idx) \<in> set (all_distances ?ix ?qv)"
      unfolding h by (rule in_take_sortD)
    from all_distances_set [OF this]
    show "0 \<le> idx \<and> nat idx < ntotal ?ix \<and> dst = fvec_L2sqr ?qv (xb ?ix ! nat idx)" .
  qed
  have "valid_hits ?md hits = hits"
    unfolding valid_hits_def
  proof (rule filter_True, clarify)
    fix dst idx assume "(dst, idx) \<in> set hits"
    from mem [OF this] n show "0 \<le> idx \<and> idx < int (length ?md)" by auto
  qed
  then have rs': "rs = map (\<lambda>(dst, idx). with_score (?md ! nat idx) (similarity_of hits dst)) hits"
    unfolding rs format_results_map by simp
  have sc: "map score rs = map (\<lambda>(dst, idx). similarity_of hits dst) hits"
    unfolding rs' by (simp add: case_prod_beta)
  have tr: "map item.truncate rs = map (\<lambda>(dst, idx). ?md ! nat idx) hits"
    unfolding rs' by (simp add: case_prod_beta)
  have "\<forall>h\<in>set hits. result_distance embedder db q
           (with_score (?md ! nat (snd h)) (similarity_of hits (fst h))) = fst h"
  proof
    fix h assume "h \<in> set hits"
    then have a: "(fst h, snd h) \<in> set hits" by simp
    from mem [OF a] have i: "0 \<le> snd h" "nat (snd h) < length ?md"
      and d: "fst h = fvec_L2sqr ?qv (xb ?ix ! nat (snd h))"
      using n by simp_all
    from ids i have "item_id (?md ! nat (snd h)) = snd h" by simp
    then show "result_distance embedder db q
        (with_score (?md ! nat (snd h)) (similarity_of hits (fst h))) = fst h"
      using d by (simp add: result_distance_with_score)
  qed
  then have rd: "map (result_distance embedder db q) rs = map fst hits"
    unfolding rs' by (simp add: case_prod_beta)
  have nn: "\<forall>d\<in>fst ` set hits. 0 \<le> d"
    using mem fvec_L2sqr_nonneg by fastforce
  have srt: "sorted (map fst hits)" unfolding h by (rule sorted_take_sort)
  from hne len k sc rd tr nn srt show ?thesis by auto
qed

lemma search_total:
  assumes "metadata db \<noteq> []" "0 < top_k" "length (embedder q) = dim (index db)"
  shows "\<exists>rs. search embedder db q top_k = Inr rs"
proof -
  have "0 < min top_k (int (length (metadata db)))" using assms(1,2) by simp
  from index_search_total [OF this assms(3)] assms(1) show ?thesis
    by (simp add: search_def Let_def)
qed

lemma score_formula:
  assumes c: "consistent db" and s: "search embedder db q top_k = Inr rs" and r: "r \<in> set rs"
  shows "score r = (if 0 < Max (result_distance embedder db q ` set rs)
                    then 1 - result_distance embedder db q r / Max (result_distance embedder db q ` set rs)
                    else 0)"
    and "0 \<le> result_distance embedder db q r"
    and "result_distance embedder db q r \<le> Max (result_distance embedder db q ` set rs)"
proof -
  let ?rd = "result_distance embedder db q"
  have ne: "metadata db \<noteq> []"
  proof
    assume "metadata db = []"
    from search_empty [OF this, of embedder q top_k] s r show False by simp
  qed
  from search_consistent [OF c s ne] obtain hits where
    hne: "hits \<noteq> []" and
    sc: "map score rs = map (\<lambda>(dst, idx). similarity_of hits dst) hits" and
    rd: "map ?rd rs = map fst hits" and
    nn: "\<forall>d\<in>fst ` set hits. 0 \<le> d"
    by blast
  have img: "?rd ` set rs = fst ` set hits"
    using rd by (metis set_map)
  have mx: "max_distance_of hits = Max (?rd ` set rs)"
    unfolding img by (rule max_distance_of_Max [OF hne])
  from r obtain j where j: "j < length rs" and rj: "rs ! j = r"
    by (auto simp: in_set_conv_nth)
  have lh: "length hits = length rs" using rd by (metis length_map)
  have "score r = map score rs ! j" using j rj by simp
  also have "\<dots> = similarity_of hits (fst (hits ! j))"
    unfolding sc using j lh by (simp add: case_prod_beta)
  also have "fst (hits ! j) = map fst hits ! j" using j lh by simp
  also have "\<dots> = ?rd r" unfolding rd [symmetric] using j rj by simp
  finally have "score r = similarity_of hits (?rd r)" .
  then show "score r = (if 0 < Max (?rd ` set rs) then 1 - ?rd r / Max (?rd ` set rs) else 0)"
    by (simp add: similarity_of_def Let_def mx)
  have "?rd r \<in> fst ` set hits" using r img by blast
  with nn show "0 \<le> ?rd r" by blast
  show "?rd r \<le> Max (?rd ` set rs)" using r by (intro Max_ge) auto
qed

lemma fvec_L2sqr_sample:
  "fvec_L2sqr (sample_embedder s) (sample_embedder t) =
     (real (length s) - real (length t)) * (real (length s) - real (length t))"
  by (simp add: fvec_L2sqr_def sample_embedder_def zip_replicate sum_list_replicate)

lemma metadata_store_AAB: "metadata store_AAB = [rec_A0, rec_A1, rec_B2]"
  by (simp add: store_AAB_def)

lemma sample_hits_3:
  "index_search (index store_AAB) (sample_embedder ''aa'') 3 = Inr [(1, 0), (1, 1), (16, 2)]"
  by (simp add: index_search_def store_AAB_def all_distances_def fvec_L2sqr_sample)

lemma sample_hits_1:
  "index_search (index store_AAB) (sample_embedder ''aa'') 1 = Inr [(1, 0)]"
  by (simp add: index_search_def store_AAB_def all_distances_def fvec_L2sqr_sample)

lemma sample_search_3: "search sample_embedder store_AAB ''aa'' 3 = Inr sample_results"
  by (simp add: search_def metadata_store_AAB sample_hits_3 sample_results_def
      similarity_of_def max_distance_of_def)

lemma sample_search_1: "search sample_embedder store_AAB ''aa'' 1 = Inr [with_score rec_A0 0]"
  by (simp add: search_def metadata_store_AAB sample_hits_1 similarity_of_def max_distance_of_def)

lemma sample_result_distances:
  "result_distance sample_embedder store_AAB ''aa'' (with_score rec_A0 s) = 1"
  "result_distance sample_embedder store_AAB ''aa'' (with_score rec_A1 s) = 1"
  "result_distance sample_embedder store_AAB ''aa'' (with_score rec_B2 s) = 16"
  by (simp_all add: result_distance_with_score store_AAB_def rec_A0_def rec_A1_def rec_B2_def
      fvec_L2sqr_sample)

subsection \<open>Scores\<close>

text \<open>
  The index of the store with one vector beside two records is the one that
  deleting topic \<open>B\<close> from a consistent store of the two records builds.
\<close>

lemma store_short_index_reachable:
  "\<exists>db'. delete_by_topic sample_embedder no_files
      \<lparr>profile = ''default'', index = \<lparr>dim = 64, xb = [sample_embedder ''a'', sample_embedder ''bbbbbb'']\<rparr>,
       metadata = [rec_A0, rec_B1]\<rparr> ''B'' = Inr (True, db', save no_files db') \<and> index db' = index store_short"
  by (simp add: delete_by_topic_def rec_A0_def rec_B1_def index_add_def IndexFlatL2_new_def Let_def store_short_def)

text \<open>
  On the store with one vector beside two records, a search for two results gets
  from the index one entry at distance 1 and one padding entry; the only record
  returned has distance 1, the largest distance among the records returned is 1,
  and its score is \<open>1 - 1 / FLT_MAX\<close>, not \<open>1 - 1 / 1\<close>.
\<close>

theorem search_score_max_over_padding:
  "search sample_embedder store_short ''aa'' 2 = Inr [with_score rec_A0 (1 - 1 / FLT_MAX)] \<and>
   result_distance sample_embedder store_short ''aa'' (with_score rec_A0 (1 - 1 / FLT_MAX)) = 1 \<and>
   Max (result_distance sample_embedder store_short ''aa'' ` set [with_score rec_A0 (1 - 1 / FLT_MAX)]) = 1 \<and>
   score (with_score rec_A0 (1 - 1 / FLT_MAX)) \<noteq> 1 - 1 / 1 \<and>
   score (with_score rec_A0 (1 - 1 / FLT_MAX)) \<noteq> 0"
proof -
  have h: "index_search (index store_short) (sample_embedder ''aa'') 2 = Inr [(1, 0), (FLT_MAX, - 1)]"
    by (simp add: index_search_def store_short_def all_distances_def fvec_L2sqr_sample)
  have s: "search sample_embedder store_short ''aa'' 2 = Inr [with_score rec_A0 (1 - 1 / FLT_MAX)]"
    by (simp add: search_def store_short_def h [unfolded store_short_def, simplified]
        similarity_of_def max_distance_of_def FLT_MAX_def)
  have d: "result_distance sample_embedder store_short ''aa'' (with_score rec_A0 (1 - 1 / FLT_MAX)) = 1"
    by (simp add: result_distance_with_score store_short_def rec_A0_def fvec_L2sqr_sample)
  have n: "score (with_score rec_A0 (1 - 1 / FLT_MAX)) \<noteq> 0"
    by (simp add: FLT_MAX_def)
  from s d n show ?thesis by simp
qed

text \<open>
  C5, as amended. Every record that \<open>search\<close> returns has a score between 0 and 1,
  and the score is \<open>1 - distance / max\<close>, or 0 when \<open>max\<close> is not positive. Here
  \<open>distance\<close> is the value the index reports, the squared Euclidean distance between
  the embedded query and the stored vector at the record's position, and \<open>max\<close> is the
  largest distance among all entries the index returned for this query, the entries
  that \<open>search\<close> skips and the padding of a short result included. On a store that
  satisfies the invariant these entries are the returned records, so there \<open>max\<close> is
  the largest distance among the records returned.
\<close>


theorem search_score_normalised:
  assumes "search embedder db q top_k = Inr rs" and "r \<in> set rs"
  shows "0 \<le> score r \<and> score r \<le> 1 \<and>
     (\<exists>hits dst idx.
        index_search (index db) (embedder q) (min top_k (int (length (metadata db)))) = Inr hits \<and>
        (dst, idx) \<in> set hits \<and> 0 \<le> idx \<and> idx < int (length (metadata db)) \<and>
        item.truncate r = metadata db ! nat idx \<and>
        dst = fvec_L2sqr (embedder q) (xb (index db) ! nat idx) \<and>
        score r = (if 0 < Max (fst ` set hits) then 1 - dst / Max (fst ` set hits) else 0)) \<and>
     (consistent db \<longrightarrow>
        score r = (if 0 < Max (result_distance embedder db q ` set rs)
                   then 1 - result_distance embedder db q r / Max (result_distance embedder db q ` set rs)
                   else 0))"
proof -
  let ?md = "metadata db"
  have ne: "?md \<noteq> []"
  proof
    assume "?md = []"
    from search_empty [OF this, of embedder q top_k] assms show False by simp
  qed
  from search_shape [OF assms(1) ne] obtain hits where
    s: "index_search (index db) (embedder q) (min top_k (int (length ?md))) = Inr hits" and
    rs: "rs = map (\<lambda>(dst, idx). with_score (?md ! nat idx) (similarity_of hits dst)) (valid_hits ?md hits)" and
    dd: "\<forall>(dst, idx)\<in>set (valid_hits ?md hits).
          nat idx < ntotal (index db) \<and> dst = fvec_L2sqr (embedder q) (xb (index db) ! nat idx)"
    by blast
  from assms(2) rs obtain dst idx where
    v: "(dst, idx) \<in> set (valid_hits ?md hits)" and
    r: "r = with_score (?md ! nat idx) (similarity_of hits dst)"
    by auto
  from v have m: "(dst, idx) \<in> set hits" and b: "0 \<le> idx" "idx < int (length ?md)"
    by (simp_all add: valid_hits_def)
  from dd v have d: "dst = fvec_L2sqr (embedder q) (xb (index db) ! nat idx)" by blast
  have nn: "0 \<le> dst" unfolding d by (rule fvec_L2sqr_nonneg)
  have le: "dst \<le> max_distance_of hits" by (rule max_distance_of_ge [OF m])
  have sc: "score r = similarity_of hits dst" unfolding r by simp
  have bounds: "0 \<le> score r \<and> score r \<le> 1"
    unfolding sc by (rule similarity_of_bounds [OF nn le])
  have "hits \<noteq> []" using m by auto
  then have mx: "max_distance_of hits = Max (fst ` set hits)" by (rule max_distance_of_Max)
  have f: "score r = (if 0 < Max (fst ` set hits) then 1 - dst / Max (fst ` set hits) else 0)"
    unfolding sc by (simp add: similarity_of_def Let_def mx)
  have t: "item.truncate r = ?md ! nat idx" unfolding r by simp
  have c: "consistent db \<longrightarrow>
        score r = (if 0 < Max (result_distance embedder db q ` set rs)
                   then 1 - result_distance embedder db q r / Max (result_distance embedder db q ` set rs)
                   else 0)"
    using score_formula(1) [OF _ assms] by blast
  from bounds s m b t d f c show ?thesis by blast
qed

theorem search_score_normalised_witness:
  "search sample_embedder store_AAB ''aa'' 3 = Inr sample_results \<and>
   with_score rec_A0 (15 / 16) \<in> set sample_results \<and>
   consistent store_AAB \<and>
   Max (result_distance sample_embedder store_AAB ''aa'' ` set sample_results) = 16 \<and>
   result_distance sample_embedder store_AAB ''aa'' (with_score rec_A0 (15 / 16)) = 1 \<and>
   score (with_score rec_A0 (15 / 16)) = 1 - 1 / 16 \<and>
   0 \<le> score (with_score rec_A0 (15 / 16)) \<and> score (with_score rec_A0 (15 / 16)) \<le> 1"
proof -
  have m: "with_score rec_A0 (15 / 16) \<in> set sample_results" by (simp add: sample_results_def)
  have M: "Max (result_distance sample_embedder store_AAB ''aa'' ` set sample_results) = 16"
    by (simp add: sample_results_def sample_result_distances)
  from search_score_normalised [OF sample_search_3 m]
  show ?thesis
    using consistent_store_AAB sample_search_3 m M by (simp add: sample_result_distances)
qed

text \<open>
  On the store with three vectors beside two records, the second of the two nearest
  entries has a position beyond the metadata and is skipped: the only record
  returned has the positive distance 1, the largest among the records returned, and
  its score is \<open>3 / 4\<close>; no returned record has score 0.
\<close>

theorem search_farthest_skipped_none_zero:
  "search sample_embedder store_long ''aaaa'' 2 = Inr [with_score rec_A1 (3 / 4)] \<and>
   0 < result_distance sample_embedder store_long ''aaaa'' (with_score rec_A1 (3 / 4)) \<and>
   result_distance sample_embedder store_long ''aaaa'' (with_score rec_A1 (3 / 4)) =
     Max (result_distance sample_embedder store_long ''aaaa'' ` set [with_score rec_A1 (3 / 4)]) \<and>
   score (with_score rec_A1 (3 / 4)) \<noteq> 0"
proof -
  have h: "index_search (index store_long) (sample_embedder ''aaaa'') 2 = Inr [(1, 1), (4, 2)]"
    by (simp add: index_search_def store_long_def all_distances_def fvec_L2sqr_sample)
  have s: "search sample_embedder store_long ''aaaa'' 2 = Inr [with_score rec_A1 (3 / 4)]"
    by (simp add: search_def store_long_def h [unfolded store_long_def, simplified]
        similarity_of_def max_distance_of_def)
  have d: "result_distance sample_embedder store_long ''aaaa'' (with_score rec_A1 (3 / 4)) = 1"
    by (simp add: result_distance_with_score store_long_def rec_A1_def fvec_L2sqr_sample)
  from s d show ?thesis by simp
qed

text \<open>
  C9, as amended. On a store that satisfies the invariant, when some returned record
  has a positive distance (the squared Euclidean distance between the embedded query
  and the record's stored vector), every returned record whose distance is the
  largest of the result has score 0, and so some returned record has score 0; with
  \<open>top_k = 1\<close> the single result is that record.
\<close>


theorem search_farthest_scores_zero:
  assumes "consistent db" and "search embedder db q top_k = Inr rs"
    and "\<exists>r\<in>set rs. 0 < result_distance embedder db q r"
  shows "(\<forall>r\<in>set rs. result_distance embedder db q r = Max (result_distance embedder db q ` set rs)
            \<longrightarrow> score r = 0) \<and>
         (\<exists>r\<in>set rs. score r = 0)"
proof -
  let ?rd = "result_distance embedder db q"
  let ?M = "Max (?rd ` set rs)"
  from assms(3) obtain r' where r': "r' \<in> set rs" "0 < ?rd r'" by blast
  from score_formula(3) [OF assms(1,2) r'(1)] r'(2) have M: "0 < ?M" by simp
  have a: "\<forall>r\<in>set rs. ?rd r = ?M \<longrightarrow> score r = 0"
  proof (intro ballI impI)
    fix r assume r: "r \<in> set rs" and e: "?rd r = ?M"
    from score_formula(1) [OF assms(1,2) r] M e show "score r = 0" by simp
  qed
  have "?M \<in> ?rd ` set rs" using r'(1) by (intro Max_in) auto
  then obtain r where "r \<in> set rs" "?rd r = ?M" by auto
  with a have "\<exists>r\<in>set rs. score r = 0" by blast
  with a show ?thesis by blast
qed

theorem search_farthest_scores_zero_witness:
  "consistent store_AAB \<and>
   search sample_embedder store_AAB ''aa'' 1 = Inr [with_score rec_A0 0] \<and>
   0 < result_distance sample_embedder store_AAB ''aa'' (with_score rec_A0 0) \<and>
   (\<exists>r\<in>set [with_score rec_A0 0]. score r = 0)"
proof -
  have p: "\<exists>r\<in>set [with_score rec_A0 0]. 0 < result_distance sample_embedder store_AAB ''aa'' r"
    by (simp add: sample_result_distances)
  from search_farthest_scores_zero [OF consistent_store_AAB sample_search_1 p]
  show ?thesis
    using consistent_store_AAB sample_search_1 by (simp add: sample_result_distances)
qed

subsection \<open>Order and number of the results\<close>

text \<open>
  C6. When \<open>search\<close> returns on a store with records, the index returned
  \<open>min(top_k, number of records)\<close> entries, of which as many carry a position as the
  index has vectors, up to that number; the results are the records at the positions
  of the entries that are not skipped, in the order of the entries; the distances of
  these entries ascend, each is the squared Euclidean distance between the embedded
  query and the stored vector at its position; and the scores of the results
  descend. On a store that satisfies the invariant, the distances of the returned
  records' stored vectors ascend.
\<close>

theorem search_ordered_by_distance:
  assumes "search embedder db q top_k = Inr rs" and "metadata db \<noteq> []"
  shows "(\<exists>hits. index_search (index db) (embedder q) (min top_k (int (length (metadata db)))) = Inr hits \<and>
      int (length hits) = min top_k (int (length (metadata db))) \<and>
      length (filter (\<lambda>(dst, idx). 0 \<le> idx) hits) = min (length hits) (ntotal (index db)) \<and>
      rs = map (\<lambda>(dst, idx). with_score (metadata db ! nat idx) (similarity_of hits dst))
             (valid_hits (metadata db) hits) \<and>
      sorted (map fst (valid_hits (metadata db) hits)) \<and>
      (\<forall>(dst, idx)\<in>set (valid_hits (metadata db) hits).
          nat idx < ntotal (index db) \<and> dst = fvec_L2sqr (embedder q) (xb (index db) ! nat idx)) \<and>
      sorted (rev (map score rs))) \<and>
    (consistent db \<longrightarrow> sorted (map (result_distance embedder db q) rs))"
proof (intro conjI impI)
  assume "consistent db"
  from search_consistent [OF this assms] obtain hits :: "(real \<times> int) list" where
    "map (result_distance embedder db q) rs = map fst hits" and "sorted (map fst hits)"
    by blast
  then show "sorted (map (result_distance embedder db q) rs)" by simp
qed (rule search_shape [OF assms])

theorem search_ordered_by_distance_witness:
  "search sample_embedder store_AAB ''aa'' 3 = Inr sample_results \<and>
   metadata store_AAB \<noteq> [] \<and>
   consistent store_AAB \<and>
   sorted (rev (map score sample_results)) \<and>
   sorted (map (result_distance sample_embedder store_AAB ''aa'') sample_results) \<and>
   (\<exists>hits. index_search (index store_AAB) (sample_embedder ''aa'') 3 = Inr hits \<and>
      length hits = 3 \<and> sorted (map fst (valid_hits (metadata store_AAB) hits)))"
proof -
  have ne: "metadata store_AAB \<noteq> []" by (simp add: metadata_store_AAB)
  have k: "min 3 (int (length (metadata store_AAB))) = 3" by (simp add: metadata_store_AAB)
  from search_ordered_by_distance [OF sample_search_3 ne] sample_search_3 ne consistent_store_AAB
  show ?thesis
    unfolding k by auto
qed

text \<open>
  On the store loaded from the torn files (two vectors beside one record) a search
  for five results asks the index for one entry, gets the vector at position 1 and
  skips it: it returns no record where \<open>min(5, 1) = 1\<close>. On the consistent sample
  store a search with \<open>top_k = 0\<close> raises the assertion of the index instead of
  returning a list.
\<close>

theorem search_count_torn_store_or_zero_k:
  "metadata (VectorDB_init torn_files ''default'') = [rec_A0] \<and>
   search sample_embedder (VectorDB_init torn_files ''default'') ''aaaa'' 5 = Inr [] \<and>
   int (length ([] :: scored_item list)) \<noteq>
     min 5 (int (length (metadata (VectorDB_init torn_files ''default'')))) \<and>
   metadata store_AAB \<noteq> [] \<and>
   search sample_embedder store_AAB ''aa'' 0 = Inl AssertionError"
proof -
  have m: "metadata (VectorDB_init torn_files ''default'') = [rec_A0]"
    and i: "index (VectorDB_init torn_files ''default'') = index_AA"
    by (simp_all add: VectorDB_init_def torn_files_def)
  have h: "index_search index_AA (sample_embedder ''aaaa'') 1 = Inr [(1, 1)]"
    by (simp add: index_search_def index_AA_def all_distances_def fvec_L2sqr_sample)
  have s: "search sample_embedder (VectorDB_init torn_files ''default'') ''aaaa'' 5 = Inr []"
    by (simp add: search_def m i h)
  have z: "search sample_embedder store_AAB ''aa'' 0 = Inl AssertionError"
    by (simp add: search_def metadata_store_AAB index_search_def)
  from m s z show ?thesis by (simp add: metadata_store_AAB)
qed

text \<open>
  C7, as amended. On a store with no records (such as the one created for a profile with no
  files) \<open>search\<close> returns the empty list and \<open>get_all_topics\<close> the empty collection.
  On a store with records that satisfies the invariant, for \<open>top_k\<close> at least 1 and a
  query embedding of the index's dimension, \<open>search\<close> returns exactly
  \<open>min(top_k, number of records)\<close> results. On any store with records, a search that
  returns gives at most that many.
\<close>

theorem search_result_count:
  "(metadata db = [] \<longrightarrow> search embedder db q top_k = Inr [] \<and> get_all_topics db = {}) \<and>
   search embedder (VectorDB_init (\<lambda>p. \<lparr>index_file = None, metadata_file = None\<rparr>) p) q top_k = Inr [] \<and>
   get_all_topics (VectorDB_init (\<lambda>p. \<lparr>index_file = None, metadata_file = None\<rparr>) p) = {} \<and>
   (consistent db \<and> metadata db \<noteq> [] \<and> 0 < top_k \<and> length (embedder q) = dim (index db) \<longrightarrow>
      (\<exists>rs. search embedder db q top_k = Inr rs \<and>
            int (length rs) = min top_k (int (length (metadata db))))) \<and>
   (metadata db \<noteq> [] \<and> search embedder db q top_k = Inr rs \<longrightarrow>
      int (length rs) \<le> min top_k (int (length (metadata db))))"
proof (intro conjI impI)
  assume "metadata db = []"
  then show "search embedder db q top_k = Inr []" by (rule search_empty)
next
  assume "metadata db = []"
  then show "get_all_topics db = {}" by (simp add: get_all_topics_def)
next
  show "search embedder (VectorDB_init (\<lambda>p. \<lparr>index_file = None, metadata_file = None\<rparr>) p) q top_k = Inr []"
    by (simp add: search_def VectorDB_init_def)
next
  show "get_all_topics (VectorDB_init (\<lambda>p. \<lparr>index_file = None, metadata_file = None\<rparr>) p) = {}"
    by (simp add: get_all_topics_def VectorDB_init_def)
next
  assume a: "consistent db \<and> metadata db \<noteq> [] \<and> 0 < top_k \<and> length (embedder q) = dim (index db)"
  then obtain rs where s: "search embedder db q top_k = Inr rs"
    using search_total by blast
  from a search_consistent [OF _ s] obtain hits where
    l: "int (length hits) = min top_k (int (length (metadata db)))" and
    sc: "map score rs = map (\<lambda>(dst, idx). similarity_of hits dst) hits"
    by blast
  have "length rs = length hits" using sc by (metis length_map)
  with l s show "\<exists>rs. search embedder db q top_k = Inr rs \<and>
            int (length rs) = min top_k (int (length (metadata db)))" by simp
next
  assume a: "metadata db \<noteq> [] \<and> search embedder db q top_k = Inr rs"
  then have s: "search embedder db q top_k = Inr rs" and ne: "metadata db \<noteq> []" by simp_all
  from search_shape [OF s ne] obtain hits where
    l: "int (length hits) = min top_k (int (length (metadata db)))" and
    rs: "rs = map (\<lambda>(dst, idx). with_score (metadata db ! nat idx) (similarity_of hits dst))
               (valid_hits (metadata db) hits)"
    by blast
  have "length rs \<le> length hits" unfolding rs by (simp add: valid_hits_def)
  then have "int (length rs) \<le> int (length hits)" by simp
  then show "int (length rs) \<le> min top_k (int (length (metadata db)))" unfolding l .
qed

theorem search_result_count_witness:
  "(\<exists>rs. search sample_embedder store_AAB ''aa'' 5 = Inr rs \<and> length rs = 3) \<and>
   (\<exists>rs. search sample_embedder store_AAB ''aa'' 2 = Inr rs \<and> length rs = 2) \<and>
   search sample_embedder (VectorDB_init no_files ''default'') ''aa'' 5 = Inr [] \<and>
   get_all_topics (VectorDB_init no_files ''default'') = {}"
proof -
  have ne: "metadata store_AAB \<noteq> []" by (simp add: metadata_store_AAB)
  have d: "length (sample_embedder ''aa'') = dim (index store_AAB)" by (simp add: store_AAB_def)
  have e: "metadata (VectorDB_init no_files ''default'') = []"
    by (simp add: VectorDB_init_def no_files_def)
  have "\<exists>rs. search sample_embedder store_AAB ''aa'' 5 = Inr rs \<and>
          int (length rs) = min 5 (int (length (metadata store_AAB)))"
    using search_result_count [of store_AAB sample_embedder "''aa''" 5] consistent_store_AAB ne d by simp
  then have a: "\<exists>rs. search sample_embedder store_AAB ''aa'' 5 = Inr rs \<and> length rs = 3"
    by (simp add: metadata_store_AAB)
  have "\<exists>rs. search sample_embedder store_AAB ''aa'' 2 = Inr rs \<and>
          int (length rs) = min 2 (int (length (metadata store_AAB)))"
    using search_result_count [of store_AAB sample_embedder "''aa''" 2] consistent_store_AAB ne d by simp
  then have b: "\<exists>rs. search sample_embedder store_AAB ''aa'' 2 = Inr rs \<and> length rs = 2"
    by (simp add: metadata_store_AAB)
  from search_result_count [of "VectorDB_init no_files ''default''" sample_embedder "''aa''" 5] e
  have c: "search sample_embedder (VectorDB_init no_files ''default'') ''aa'' 5 = Inr [] \<and>
           get_all_topics (VectorDB_init no_files ''default'') = {}"
    by blast
  from a b c show ?thesis by blast
qed

section \<open>The embedding function\<close>

text \<open>
  C8. \<open>generate_embeddings\<close> returns the same vector (and leaves the generator in
  the same state) whatever the state of the generator before the call, so its result
  is a function of the text alone; the vector has 64 components, given that drawing
  \<open>n\<close> variates returns \<open>n\<close> values.
\<close>

theorem generate_embeddings_deterministic:
  assumes "\<forall>n g. length (fst (randn n g)) = n"
  shows "generate_embeddings md5 seed randn float32 text g1 =
           generate_embeddings md5 seed randn float32 text g2 \<and>
         length (fst (generate_embeddings md5 seed randn float32 text g1)) = 64"
proof -
  have "length (fst (randn 64 (seed (md5 text mod 10 ^ 8)))) = 64"
    using assms by blast
  then show ?thesis
    by (simp add: generate_embeddings_def Let_def case_prod_beta)
qed

theorem generate_embeddings_deterministic_witness:
  "generate_embeddings length (\<lambda>n. n) sample_randn (\<lambda>x. x) ''abc'' 0 =
     generate_embeddings length (\<lambda>n. n) sample_randn (\<lambda>x. x) ''abc'' 7 \<and>
   length (fst (generate_embeddings length (\<lambda>n. n) sample_randn (\<lambda>x. x) ''abc'' 0)) = 64"
proof -
  have h: "\<forall>n g. length (fst (sample_randn n g)) = n" by (simp add: sample_randn_def)
  from generate_embeddings_deterministic [OF h] show ?thesis by blast
qed

section \<open>Reading leaves the store as it is\<close>

subsection \<open>Auxiliary facts about the heap\<close>

lemma as_dict_simps [simp]:
  "item.truncate (as_dict it) = it"
  "score_key (as_dict it) = None"
  "topic (as_dict it) = topic it"
  by (simp_all add: as_dict_def item.truncate_def item.extend_def dict_obj.fields_def)

lemma truncate_score_key_update [simp]:
  "item.truncate (x\<lparr>score_key := s\<rparr>) = item.truncate (x :: dict_obj)"
  by (simp add: item.truncate_def)

lemma topic_truncate [simp]: "topic (item.truncate (x :: dict_obj)) = topic x"
  by (simp add: item.truncate_def)

lemma copy_then_set:
  "dict_copy h a = (r, h1) \<Longrightarrow>
     r = length h \<and> dict_set_score h1 r s = h @ [(h ! a)\<lparr>score_key := Some s\<rparr>]"
  by (auto simp: dict_copy_def dict_set_score_def)

lemma format_results_obj_step:
  assumes "idx \<ge> 0 \<and> idx < int (length md)"
  shows "format_results_obj h md hits ((dst, idx) # rest) =
           (let h2 = h @ [(h ! (md ! nat idx))\<lparr>score_key := Some (similarity_of hits dst)\<rparr>];
                (results, h3) = format_results_obj h2 md hits rest
            in (length h # results, h3))"
  using assms by (simp add: dict_copy_def dict_set_score_def Let_def)

lemma format_results_obj_skip:
  assumes "\<not> (idx \<ge> 0 \<and> idx < int (length md))"
  shows "format_results_obj h md hits ((dst, idx) # rest) = format_results_obj h md hits rest"
proof -
  have "(idx \<ge> 0 \<and> idx < int (length md)) = False" using assms by blast
  then show ?thesis by (simp only: format_results_obj.simps if_False)
qed

lemma format_results_obj_frame:
  "format_results_obj h md hits hs = (res, h') \<Longrightarrow>
     length h \<le> length h' \<and> take (length h) h' = h \<and>
     (\<forall>a\<in>set res. length h \<le> a \<and> a < length h')"
proof (induction hs arbitrary: h res h')
  case Nil
  then show ?case by simp
next
  case (Cons x hs)
  obtain dst idx where x: "x = (dst, idx)" by (cases x)
  show ?case
  proof (cases "idx \<ge> 0 \<and> idx < int (length md)")
    case False
    from Cons.prems have "format_results_obj h md hits hs = (res, h')"
      unfolding x format_results_obj_skip [OF False] .
    from Cons.IH [OF this] show ?thesis .
  next
    case True
    let ?h2 = "h @ [(h ! (md ! nat idx))\<lparr>score_key := Some (similarity_of hits dst)\<rparr>]"
    obtain results h3 where r: "format_results_obj ?h2 md hits hs = (results, h3)"
      by (cases "format_results_obj ?h2 md hits hs")
    from Cons.prems have e: "res = length h # results" "h' = h3"
      unfolding x format_results_obj_step [OF True] by (simp_all add: r Let_def)
    from Cons.IH [OF r] have
      l: "length ?h2 \<le> length h3" and t: "take (length ?h2) h3 = ?h2" and
      a: "\<forall>a\<in>set results. length ?h2 \<le> a \<and> a < length h3"
      by blast+
    have "take (length h) h3 = take (length h) (take (length ?h2) h3)"
      by (simp add: min_def)
    also have "\<dots> = h" unfolding t by simp
    finally have "take (length h) h3 = h" .
    with l a show ?thesis unfolding e by auto
  qed
qed

lemma nth_of_prefix:
  assumes "take n h' = h2" "i < length h2"
  shows "h' ! i = h2 ! i"
proof -
  have "h2 ! i = take n h' ! i" using assms(1) by simp
  also have "\<dots> = h' ! i" using assms by (metis length_take min_less_iff_conj nth_take)
  finally show ?thesis by simp
qed

lemma format_results_obj_refines:
  "format_results_obj h md hits hs = (res, h') \<Longrightarrow> \<forall>a\<in>set md. a < length h \<Longrightarrow>
     map (\<lambda>a. item.truncate (h' ! a)) res =
       map item.truncate (format_results (map (\<lambda>a. item.truncate (h ! a)) md) hits hs) \<and>
     map (\<lambda>a. score_key (h' ! a)) res =
       map (\<lambda>r. Some (score r)) (format_results (map (\<lambda>a. item.truncate (h ! a)) md) hits hs)"
proof (induction hs arbitrary: h res h')
  case Nil
  then show ?case by simp
next
  case (Cons x hs)
  obtain dst idx where x: "x = (dst, idx)" by (cases x)
  let ?mdv = "map (\<lambda>a. item.truncate (h ! a)) md"
  show ?case
  proof (cases "idx \<ge> 0 \<and> idx < int (length md)")
    case False
    from Cons.prems(1) have "format_results_obj h md hits hs = (res, h')"
      unfolding x format_results_obj_skip [OF False] .
    from Cons.IH [OF this Cons.prems(2)] False show ?thesis
      unfolding x by simp
  next
    case True
    let ?obj = "(h ! (md ! nat idx))\<lparr>score_key := Some (similarity_of hits dst)\<rparr>"
    let ?h2 = "h @ [?obj]"
    obtain results h3 where r: "format_results_obj ?h2 md hits hs = (results, h3)"
      by (cases "format_results_obj ?h2 md hits hs")
    from Cons.prems(1) have e: "res = length h # results" "h' = h3"
      unfolding x format_results_obj_step [OF True] by (simp_all add: r Let_def)
    have in2: "\<forall>a\<in>set md. a < length ?h2" using Cons.prems(2) by auto
    have same: "map (\<lambda>a. item.truncate (?h2 ! a)) md = ?mdv"
      using Cons.prems(2) by (simp add: nth_append)
    from format_results_obj_frame [OF r] have t: "take (length ?h2) h3 = ?h2" by blast
    have "h3 ! length h = ?h2 ! length h"
      by (rule nth_of_prefix [OF t]) simp
    then have hd: "h3 ! length h = ?obj" by simp
    have i: "nat idx < length md" using True by auto
    have v: "?mdv ! nat idx = item.truncate (h ! (md ! nat idx))" using i by simp
    from Cons.IH [OF r in2] have
      ih1: "map (\<lambda>a. item.truncate (h3 ! a)) results = map item.truncate (format_results ?mdv hits hs)"
      and ih2: "map (\<lambda>a. score_key (h3 ! a)) results = map (\<lambda>r. Some (score r)) (format_results ?mdv hits hs)"
      unfolding same by blast+
    have f: "format_results ?mdv hits (x # hs) =
      with_score (?mdv ! nat idx) (similarity_of hits dst) # format_results ?mdv hits hs"
      unfolding x using True by simp
    show ?thesis
      unfolding e f using ih1 ih2 hd v by simp
  qed
qed

lemma store_of_frame:
  assumes "refs_ok h self" "take (length h) h' = h"
  shows "store_of p h' self = store_of p h self"
proof -
  have "\<forall>a\<in>set (obj_metadata self). h' ! a = h ! a"
    using assms nth_of_prefix [OF assms(2)] by (auto simp: refs_ok_def list_all_iff)
  then show ?thesis by (simp add: store_of_def)
qed

lemma search_obj_Inr:
  assumes "search_obj embedder h self q top_k = Inr (res, h', self')"
  shows "self' = self"
    and "obj_metadata self = [] \<longrightarrow> res = [] \<and> h' = h"
    and "obj_metadata self \<noteq> [] \<longrightarrow>
      (\<exists>hits. index_search (obj_index self) (embedder q) (min top_k (int (length (obj_metadata self)))) = Inr hits \<and>
         format_results_obj h (obj_metadata self) hits hits = (res, h'))"
  using assms
  by (auto simp: search_obj_def Let_def split: if_splits sum.splits prod.splits)

lemma sample_search_obj:
  "search_obj sample_embedder sample_heap sample_obj ''aa'' 1 =
     Inr ([3], sample_heap @ [(as_dict rec_A0)\<lparr>score_key := Some 0\<rparr>], sample_obj)"
  by (simp add: search_obj_def sample_obj_def sample_hits_1 sample_heap_def dict_copy_def
      dict_set_score_def similarity_of_def max_distance_of_def)

subsection \<open>The frame of the read operations\<close>

text \<open>
  C10. \<open>search\<close>, \<open>get_by_topic\<close> and \<open>get_all_topics\<close> leave the object's index and
  metadata list as they are, and every dictionary that existed before the call has
  the same contents after it: \<open>search\<close> writes each score into a dictionary that it
  allocated itself, at an address beyond the old heap. The store the objects stand
  for is unchanged, and the three operations on objects return what the operations
  on values return.
\<close>

theorem reads_leave_store_unchanged:
  "(search_obj embedder h self q top_k = Inr (res, h', self') \<longrightarrow>
      self' = self \<and> take (length h) h' = h \<and> (\<forall>a\<in>set res. length h \<le> a \<and> a < length h')) \<and>
   (refs_ok h self \<and> search_obj embedder h self q top_k = Inr (res, h', self') \<longrightarrow>
      store_of p h' self' = store_of p h self \<and>
      (\<exists>rs. search embedder (store_of p h self) q top_k = Inr rs \<and>
            map (\<lambda>a. item.truncate (h' ! a)) res = map item.truncate rs \<and>
            map (\<lambda>a. score_key (h' ! a)) res = map (\<lambda>r. Some (score r)) rs)) \<and>
   snd (get_by_topic_obj h self tp) = (h, self) \<and>
   map (\<lambda>a. item.truncate (h ! a)) (fst (get_by_topic_obj h self tp)) =
     get_by_topic (store_of p h self) tp \<and>
   snd (get_all_topics_obj h self) = (h, self) \<and>
   fst (get_all_topics_obj h self) = get_all_topics (store_of p h self)"
proof (intro conjI impI)
  assume s: "search_obj embedder h self q top_k = Inr (res, h', self')"
  note i = search_obj_Inr [OF s]
  show "self' = self" by (rule i(1))
  show "take (length h) h' = h"
  proof (cases "obj_metadata self = []")
    case True
    with i(2) show ?thesis by simp
  next
    case False
    with i(3) format_results_obj_frame show ?thesis by blast
  qed
  show "\<forall>a\<in>set res. length h \<le> a \<and> a < length h'"
  proof (cases "obj_metadata self = []")
    case True
    with i(2) show ?thesis by simp
  next
    case False
    with i(3) format_results_obj_frame show ?thesis by blast
  qed
next
  assume a: "refs_ok h self \<and> search_obj embedder h self q top_k = Inr (res, h', self')"
  then have ok: "refs_ok h self" and s: "search_obj embedder h self q top_k = Inr (res, h', self')"
    by simp_all
  note i = search_obj_Inr [OF s]
  have fr: "take (length h) h' = h"
  proof (cases "obj_metadata self = []")
    case True
    with i(2) show ?thesis by simp
  next
    case False
    with i(3) format_results_obj_frame show ?thesis by blast
  qed
  show "store_of p h' self' = store_of p h self"
    unfolding i(1) by (rule store_of_frame [OF ok fr])
  show "\<exists>rs. search embedder (store_of p h self) q top_k = Inr rs \<and>
            map (\<lambda>a. item.truncate (h' ! a)) res = map item.truncate rs \<and>
            map (\<lambda>a. score_key (h' ! a)) res = map (\<lambda>r. Some (score r)) rs"
  proof (cases "obj_metadata self = []")
    case True
    with i(2) show ?thesis by (simp add: search_def store_of_def)
  next
    case False
    with i(3) obtain hits where
      isr: "index_search (obj_index self) (embedder q) (min top_k (int (length (obj_metadata self)))) = Inr hits"
      and f: "format_results_obj h (obj_metadata self) hits hits = (res, h')"
      by blast
    have in1: "\<forall>a\<in>set (obj_metadata self). a < length h"
      using ok by (simp add: refs_ok_def list_all_iff)
    have "search embedder (store_of p h self) q top_k =
      Inr (format_results (map (\<lambda>a. item.truncate (h ! a)) (obj_metadata self)) hits hits)"
      using False isr by (simp add: search_def store_of_def Let_def)
    with format_results_obj_refines [OF f in1] show ?thesis by blast
  qed
next
  show "snd (get_by_topic_obj h self tp) = (h, self)" by (simp add: get_by_topic_obj_def)
next
  show "map (\<lambda>a. item.truncate (h ! a)) (fst (get_by_topic_obj h self tp)) =
     get_by_topic (store_of p h self) tp"
    by (simp add: get_by_topic_obj_def get_by_topic_def store_of_def filter_map comp_def)
next
  show "snd (get_all_topics_obj h self) = (h, self)" by (simp add: get_all_topics_obj_def)
next
  show "fst (get_all_topics_obj h self) = get_all_topics (store_of p h self)"
    by (simp add: get_all_topics_obj_def get_all_topics_def store_of_def comp_def)
qed

theorem reads_leave_store_unchanged_witness:
  "refs_ok sample_heap sample_obj \<and>
   search_obj sample_embedder sample_heap sample_obj ''aa'' 1 =
     Inr ([3], sample_heap @ [(as_dict rec_A0)\<lparr>score_key := Some 0\<rparr>], sample_obj) \<and>
   take (length sample_heap) (sample_heap @ [(as_dict rec_A0)\<lparr>score_key := Some 0\<rparr>]) = sample_heap \<and>
   store_of ''default'' (sample_heap @ [(as_dict rec_A0)\<lparr>score_key := Some 0\<rparr>]) sample_obj =
     store_of ''default'' sample_heap sample_obj"
proof -
  have ok: "refs_ok sample_heap sample_obj"
    by (simp add: refs_ok_def sample_heap_def sample_obj_def)
  from reads_leave_store_unchanged [of sample_embedder sample_heap sample_obj "''aa''" 1 "[3]"
      "sample_heap @ [(as_dict rec_A0)\<lparr>score_key := Some 0\<rparr>]" sample_obj "''default''"]
    ok sample_search_obj
  show ?thesis by blast
qed

end
